theory Spec2Isabelle
  imports Complex_Main "HOL-Library.Sublist"
begin

section \<open>The review sentiment pipeline of \<^verbatim>\<open>app.py\<close>\<close>

text \<open>
  The program is one Flask module. A spreadsheet of reviews is uploaded, its
  \<^verbatim>\<open>Review\<close> column is read with pandas, every review is sent to a remote
  chat-completion endpoint (with a retry loop on HTTP 429), the free-text answer is mapped
  to a label by substring search, and the labels are counted and turned into three rounded
  proportions.

  Python strings are modelled as \<^typ>\<open>string\<close>, the UTF-8 bytes of the text. The two
  string operations the program uses on text it does not control are \<^verbatim>\<open>lower()\<close>
  and \<^verbatim>\<open>in\<close> against the ASCII words \<^verbatim>\<open>positive\<close> and
  \<^verbatim>\<open>negative\<close>. On ASCII letters \<^verbatim>\<open>lower()\<close> is the map below; a code
  point outside ASCII is a sequence of bytes above 127, which the map leaves alone.
  Python lower-cases such a code point to code points outside ASCII, with two exceptions
  (U+212A gives \<open>k\<close>, U+0130 gives \<open>i\<close> followed by U+0307), neither of which
  can take part in an occurrence of the two words, so the search gives the same answer on
  the bytes.
\<close>

subsection \<open>Exceptions\<close>

text \<open>
  The exceptions that leave a function of the module uncaught. \<open>ParserError\<close> stands
  for whatever \<^verbatim>\<open>pd.read_csv\<close> or \<^verbatim>\<open>pd.read_excel\<close> raises on a file
  they cannot read, with its text; \<open>TypeError\<close> is what iterating over
  \<^verbatim>\<open>None\<close> raises.
\<close>

datatype py_error = ZeroDivisionError | OverflowError | TypeError | ParserError string

subsection \<open>Strings\<close>

definition lower_char :: "char \<Rightarrow> char" where
  "lower_char c =
     (let n = (of_char c :: nat) in if 65 \<le> n \<and> n \<le> 90 then char_of (n + 32) else c)"

definition lower :: "string \<Rightarrow> string" where
  "lower s = map lower_char s"

text \<open>\<^verbatim>\<open>s.endswith(suf)\<close>.\<close>

definition endswith :: "string \<Rightarrow> string \<Rightarrow> bool" where
  "endswith s suf = suffix suf s"

text \<open>
  \<^verbatim>\<open>s.rsplit(sep, 1)\<close> for a one-character separator: the text before the last
  separator and the text after it, or the whole text alone when no separator occurs.
\<close>

definition rsplit1 :: "char \<Rightarrow> string \<Rightarrow> string list" where
  "rsplit1 sep s =
     (if sep \<in> set s
      then (let tail = rev (takeWhile (\<lambda>c. c \<noteq> sep) (rev s))
            in [take (length s - length tail - 1) s, tail])
      else [s])"

subsection \<open>Accepting a file name\<close>

definition ALLOWED_EXTENSIONS :: "string set" where
  "ALLOWED_EXTENSIONS = {''csv'', ''xlsx''}"

definition allowed_file :: "string \<Rightarrow> bool" where
  "allowed_file filename =
     (CHR ''.'' \<in> set filename \<and> lower (rsplit1 CHR ''.'' filename ! 1) \<in> ALLOWED_EXTENSIONS)"

subsection \<open>Reading the reviews\<close>

text \<open>
  A data frame as pandas returns it: the columns in order, each with its name and its
  cells; a cell is \<open>None\<close> where pandas holds a missing value (NaN), and otherwise the
  value pandas holds, written as Python prints it. An uploaded file is its name together
  with what \<^verbatim>\<open>pd.read_csv\<close> and \<^verbatim>\<open>pd.read_excel\<close> make of its bytes: a
  data frame, or the exception they raise.
\<close>

type_synonym cell = "string option"

type_synonym dataframe = "(string \<times> cell list) list"

record upload =
  filename :: string
  read_csv :: "py_error + dataframe"
  read_excel :: "py_error + dataframe"

text \<open>
  What the two readers make of the cells of a file, for a column they keep as text. The
  program calls them with their default arguments, so a cell whose text is one of the
  markers of pandas' \<^verbatim>\<open>STR_NA_VALUES\<close> (pandas 2: the empty text among them) is
  read as missing, and every other text is kept as it is. A sheet is the file as it was
  written: the columns in order, each with its name and the texts of its cells. (A column
  in which every text that is not a marker is a number or a truth value is converted by
  pandas to numbers; such a column is covered by the frame of the upload, not by
  \<open>read_text_sheet\<close>.)
\<close>

type_synonym sheet = "(string \<times> string list) list"

definition STR_NA_VALUES :: "string set" where
  "STR_NA_VALUES =
     {''-1.#IND'', ''1.#QNAN'', ''1.#IND'', ''-1.#QNAN'', ''#N/A N/A'', ''#N/A'', ''N/A'',
      ''n/a'', ''NA'', ''<NA>'', ''#NA'', ''NULL'', ''null'', ''NaN'', ''-NaN'', ''nan'',
      ''-nan'', ''None'', ''''}"

definition read_text_cell :: "string \<Rightarrow> cell" where
  "read_text_cell text = (if text \<in> STR_NA_VALUES then None else Some text)"

definition read_text_sheet :: "sheet \<Rightarrow> dataframe" where
  "read_text_sheet sh = map (\<lambda>(name, texts). (name, map read_text_cell texts)) sh"

text \<open>Which of the two pandas readers \<^verbatim>\<open>process_file\<close> calls.\<close>

datatype reader = Csv_reader | Excel_reader

definition reader_of :: "string \<Rightarrow> reader" where
  "reader_of name = (if endswith name ''.csv'' then Csv_reader else Excel_reader)"

definition read_frame :: "upload \<Rightarrow> py_error + dataframe" where
  "read_frame file =
     (case reader_of (filename file) of
        Csv_reader \<Rightarrow> read_csv file
      | Excel_reader \<Rightarrow> read_excel file)"

text \<open>\<^verbatim>\<open>df['Review'].dropna().tolist()\<close> on the cells of the column.\<close>

definition dropna :: "cell list \<Rightarrow> string list" where
  "dropna cells = map the (filter (\<lambda>c. c \<noteq> None) cells)"

text \<open>
  \<^verbatim>\<open>process_file\<close> returns the pair (reviews, error), one of them \<^verbatim>\<open>None\<close>;
  an exception of the reader is not caught.
\<close>

definition process_file :: "upload \<Rightarrow> py_error + (string list option \<times> string option)" where
  "process_file file =
     (case read_frame file of
        Inl e \<Rightarrow> Inl e
      | Inr df \<Rightarrow>
          (case map_of df ''Review'' of
             None \<Rightarrow> Inr (None, Some ''Missing 'Review' column in file.'')
           | Some cells \<Rightarrow> Inr (Some (dropna cells), None)))"

subsection \<open>From the model's answer to a label\<close>

text \<open>
  What \<^verbatim>\<open>analyze_sentiment\<close> returns: a dictionary with the single key
  \<^verbatim>\<open>sentiment\<close> or the single key \<^verbatim>\<open>error\<close>.
\<close>

datatype outcome = Sentiment string | Error string

definition classify_sentiment :: "string \<Rightarrow> string" where
  "classify_sentiment sentiment_content =
     (let sentiment_content_lower = lower sentiment_content in
      if sublist ''positive'' sentiment_content_lower then ''positive''
      else if sublist ''negative'' sentiment_content_lower then ''negative''
      else ''neutral'')"

text \<open>
  Lines 131 to 135 of the loop of \<^verbatim>\<open>upload_file\<close>: the label of a review,
  and the message flashed when the classification failed (the list is the flashed
  messages so far).
\<close>

definition label_of :: "outcome \<Rightarrow> string list \<Rightarrow> string \<times> string list" where
  "label_of sentiment_result fl =
     (case sentiment_result of
        Sentiment content \<Rightarrow> (classify_sentiment content, fl)
      | Error e \<Rightarrow> (''unknown'', fl @ [''Error analyzing sentiment for review: '' @ e]))"

subsection \<open>The remote endpoint\<close>

text \<open>
  The process-wide configuration. \<^verbatim>\<open>API_KEY = os.environ.get("GROQ_API_KEY")\<close>
  runs when the module is loaded: \<^verbatim>\<open>get\<close> gives \<^verbatim>\<open>None\<close> for a
  variable that is not set, and nothing looks at the value before it is formatted into a
  header.
\<close>

record config =
  API_KEY :: "string option"

definition load_config :: "(string \<rightharpoonup> string) \<Rightarrow> config" where
  "load_config environ = \<lparr>API_KEY = environ ''GROQ_API_KEY''\<rparr>"

definition GROQ_API_URL :: string where
  "GROQ_API_URL = ''https://api.groq.com/openai/v1/chat/completions''"

definition MODEL_ID :: string where
  "MODEL_ID = ''llama3-8b-8192''"

text \<open>An optional string inside an f-string: \<^verbatim>\<open>None\<close> prints as its name.\<close>

definition format_opt :: "string option \<Rightarrow> string" where
  "format_opt v = (case v of None \<Rightarrow> ''None'' | Some s \<Rightarrow> s)"

text \<open>The request \<^verbatim>\<open>requests.post(GROQ_API_URL, headers=headers, json=data)\<close> sends.\<close>

record request =
  url :: string
  headers :: "(string \<times> string) list"
  model :: string
  messages :: "(string \<times> string) list"

definition build_request :: "config \<Rightarrow> string \<Rightarrow> request" where
  "build_request cfg review =
     \<lparr>url = GROQ_API_URL,
      headers = [(''Authorization'', ''Bearer '' @ format_opt (API_KEY cfg)),
                 (''Content-Type'', ''application/json'')],
      model = MODEL_ID,
      messages = [(''user'', ''Analyze the sentiment of this review: ''
                     @ [CHR 0x27] @ review @ [CHR 0x27])]\<rparr>"

text \<open>
  A response: its status code, the text of the \<^verbatim>\<open>HTTPError\<close> that
  \<^verbatim>\<open>raise_for_status\<close> builds from it, and its body, taken to be a JSON object
  of the endpoint's shape. The body is reduced to what the code reads: the list under
  \<^verbatim>\<open>choices\<close> (\<open>None\<close> when the key is absent or null), and of each choice the
  value of \<^verbatim>\<open>.get('message', {}).get('content', None)\<close> (\<open>None\<close> when the
  message is absent, or its content is absent or null). A body that is not JSON, or in
  which a choice or its message is not an object, is outside this shape: there the code
  leaves the loop by an exception of its own, without a retry.
\<close>

type_synonym choice = "string option"

record response =
  status_code :: nat
  http_error_text :: string
  choices :: "choice list option"

text \<open>
  What one call of \<^verbatim>\<open>requests.post\<close> gives: a response, or a
  \<^verbatim>\<open>RequestException\<close> other than \<^verbatim>\<open>HTTPError\<close> (connection error,
  timeout, ...) with its text. The endpoint is a function of the number of requests sent
  before and of the request; every property below holds for every such function.
\<close>

datatype http_result = Response response | RequestException string

type_synonym server = "nat \<Rightarrow> request \<Rightarrow> http_result"

text \<open>The observable effects of the classifier, in the order they happen.\<close>

datatype event = Post request | Sleep nat

fun sent :: "event list \<Rightarrow> request list" where
  "sent [] = []"
| "sent (Post r # es) = r # sent es"
| "sent (Sleep n # es) = sent es"

definition requests_post :: "server \<Rightarrow> request \<Rightarrow> event list \<Rightarrow> http_result \<times> event list" where
  "requests_post srv req tr = (srv (length (sent tr)) req, tr @ [Post req])"

text \<open>\<^verbatim>\<open>raise_for_status\<close> raises for the client and server error codes.\<close>

definition raises_for_status :: "response \<Rightarrow> bool" where
  "raises_for_status r = (400 \<le> status_code r \<and> status_code r < 600)"

text \<open>Lines 77 to 85: the first choice's content, when there is one and it is not empty.\<close>

definition extract_sentiment :: "response \<Rightarrow> outcome" where
  "extract_sentiment r =
     (case choices r of
        None \<Rightarrow> Error ''No choices found in the API response.''
      | Some [] \<Rightarrow> Error ''No choices found in the API response.''
      | Some (c # _) \<Rightarrow>
          (case c of
             None \<Rightarrow> Error ''Sentiment content not found in the response.''
           | Some sentiment_content \<Rightarrow>
               if sentiment_content \<noteq> [] then Sentiment sentiment_content
               else Error ''Sentiment content not found in the response.''))"

text \<open>
  The loop \<^verbatim>\<open>for attempt in range(retry_attempts)\<close> of \<^verbatim>\<open>analyze_sentiment\<close>,
  over the attempts still to make. The \<^verbatim>\<open>print\<close> calls are left out.
\<close>

fun attempts :: "server \<Rightarrow> request \<Rightarrow> nat list \<Rightarrow> event list \<Rightarrow> outcome \<times> event list" where
  "attempts srv req [] tr =
     (Error ''Failed after multiple retries due to rate limiting.'', tr)"
| "attempts srv req (attempt # rest) tr =
     (case requests_post srv req tr of
        (RequestException e, tr') \<Rightarrow> (Error (''Request failed: '' @ e), tr')
      | (Response r, tr') \<Rightarrow>
          if raises_for_status r then
            if status_code r = 429 then attempts srv req rest (tr' @ [Sleep (2 ^ attempt)])
            else (Error (''HTTP error: '' @ http_error_text r), tr')
          else (extract_sentiment r, tr'))"

definition retry_attempts :: nat where
  "retry_attempts = 3"

definition analyze_sentiment :: "config \<Rightarrow> server \<Rightarrow> string \<Rightarrow> event list \<Rightarrow> outcome \<times> event list" where
  "analyze_sentiment cfg srv review tr =
     attempts srv (build_request cfg review) [0..<retry_attempts] tr"

text \<open>
  For stating the retry policy: a reply is rate limited when it is a response with status
  429, and \<open>backoff req k\<close> is what \<open>k\<close> rate-limited attempts leave in the trace.
\<close>

definition rate_limited :: "http_result \<Rightarrow> bool" where
  "rate_limited h = (case h of Response r \<Rightarrow> status_code r = 429 | RequestException _ \<Rightarrow> False)"

definition backoff :: "request \<Rightarrow> nat \<Rightarrow> event list" where
  "backoff req k = concat (map (\<lambda>attempt. [Post req, Sleep (2 ^ attempt)]) [0..<k])"

subsection \<open>Floating-point division and rounding\<close>

text \<open>
  \<^verbatim>\<open>count / total\<close> is Python's true division of two integers: the binary64 number
  nearest to the exact quotient, ties to the even significand. \<^verbatim>\<open>round(x, 2)\<close>
  on a float writes the exact value of \<open>x\<close> to two decimal places, ties to the even
  digit, and converts that decimal back to the nearest binary64 number. A float is
  modelled by the rational number it denotes, so both are functions on exact numbers.
\<close>

text \<open>\<^verbatim>\<open>n.bit_length()\<close>.\<close>

fun bit_length :: "nat \<Rightarrow> nat" where
  "bit_length n = (if n = 0 then 0 else Suc (bit_length (n div 2)))"

declare bit_length.simps [simp del]

text \<open>The integer nearest to \<open>n / d\<close> for \<open>0 < d\<close>, ties to the even one.\<close>

definition round_half_even :: "int \<Rightarrow> int \<Rightarrow> int" where
  "round_half_even n d =
     (let q = n div d; r = n mod d in
      if 2 * r < d then q
      else if d < 2 * r then q + 1
      else if even q then q else q + 1)"

text \<open>The binary exponent of \<open>a / b\<close> for positive \<open>a\<close> and \<open>b\<close>: \<open>\<lfloor>log\<^sub>2 (a / b)\<rfloor>\<close>.\<close>

definition binade :: "nat \<Rightarrow> nat \<Rightarrow> int" where
  "binade a b =
     (let d = int (bit_length a) - int (bit_length b) in
      if b * 2 ^ nat d \<le> a * 2 ^ nat (- d) then d else d - 1)"

text \<open>
  The binary64 number nearest to \<open>a / b\<close> for \<open>0 < b\<close>: the quotient is scaled by
  \<open>2\<^sup>e\<close> so that it lies between \<open>2\<^sup>5\<^sup>2\<close> and \<open>2\<^sup>5\<^sup>3\<close> (\<open>e\<close> is at most 1074, where
  the subnormal numbers begin), rounded to an integer, and scaled back. The result is not
  bounded above: the caller checks for overflow.
\<close>

definition nearest_double :: "nat \<Rightarrow> nat \<Rightarrow> rat" where
  "nearest_double a b =
     (if a = 0 then 0
      else
        (let e = min (52 - binade a b) 1074 in
         if 0 \<le> e then of_int (round_half_even (int a * 2 ^ nat e) (int b)) / 2 ^ nat e
         else of_int (round_half_even (int a) (int b * 2 ^ nat (- e))) * 2 ^ nat (- e)))"

definition py_truediv :: "nat \<Rightarrow> nat \<Rightarrow> py_error + rat" where
  "py_truediv a b =
     (if b = 0 then Inl ZeroDivisionError
      else (let x = nearest_double a b in if 2 ^ 1024 \<le> x then Inl OverflowError else Inr x))"

text \<open>\<^verbatim>\<open>round(x, 2)\<close> for a float \<open>x\<close>.\<close>

definition py_round2 :: "rat \<Rightarrow> rat" where
  "py_round2 x =
     (let (n, d) = quotient_of (x * 100); k = round_half_even n d in
      if 0 \<le> k then nearest_double (nat k) 100 else - nearest_double (nat (- k)) 100)"

subsection \<open>The upload handler\<close>

text \<open>
  The counters and the result list of the loop of \<^verbatim>\<open>upload_file\<close>, and what the
  handler leaves behind: the flashed messages and the trace of the classifier.
\<close>

record tally =
  positive_count :: nat
  negative_count :: nat
  neutral_count :: nat
  results :: "(string \<times> string) list"

record world =
  flashed :: "string list"
  trace :: "event list"

definition flash :: "string \<Rightarrow> world \<Rightarrow> world" where
  "flash msg w = w\<lparr>flashed := flashed w @ [msg]\<rparr>"

text \<open>Lines 138 to 143.\<close>

definition count_label :: "string \<Rightarrow> tally \<Rightarrow> tally" where
  "count_label sentiment t =
     (if sentiment = ''positive'' then t\<lparr>positive_count := positive_count t + 1\<rparr>
      else if sentiment = ''negative'' then t\<lparr>negative_count := negative_count t + 1\<rparr>
      else t\<lparr>neutral_count := neutral_count t + 1\<rparr>)"

text \<open>The loop \<^verbatim>\<open>for review in reviews\<close> (lines 127 to 148).\<close>

fun review_loop :: "config \<Rightarrow> server \<Rightarrow> string list \<Rightarrow> tally \<Rightarrow> world \<Rightarrow> tally \<times> world" where
  "review_loop cfg srv [] t w = (t, w)"
| "review_loop cfg srv (review # rest) t w =
     (let (sentiment_result, tr) = analyze_sentiment cfg srv review (trace w);
          (sentiment, fl) = label_of sentiment_result (flashed w);
          t' = count_label sentiment t
      in review_loop cfg srv rest
           (t'\<lparr>results := results t' @ [(review, sentiment)]\<rparr>)
           \<lparr>flashed = fl, trace = tr\<rparr>)"

definition empty_tally :: tally where
  "empty_tally = \<lparr>positive_count = 0, negative_count = 0, neutral_count = 0, results = []\<rparr>"

text \<open>
  Lines 150 to 159: the three scores in the order the code computes them, and the
  dictionary built from them, as the list of its items.
\<close>

definition summarize :: "tally \<Rightarrow> nat \<Rightarrow> py_error + (string \<times> rat) list" where
  "summarize t total_reviews =
     (case py_truediv (positive_count t) total_reviews of
        Inl e \<Rightarrow> Inl e
      | Inr p \<Rightarrow>
     (case py_truediv (negative_count t) total_reviews of
        Inl e \<Rightarrow> Inl e
      | Inr n \<Rightarrow>
     (case py_truediv (neutral_count t) total_reviews of
        Inl e \<Rightarrow> Inl e
      | Inr u \<Rightarrow>
          Inr [(''positive'', py_round2 p),
               (''negative'', py_round2 n),
               (''neutral'', py_round2 u)])))"

text \<open>
  The request as the handler reads it: the method and \<^verbatim>\<open>request.files\<close>. The
  handler answers with a redirect to the form, the form itself, or the result page with
  the results and the summary; an exception it does not catch ends it instead.
\<close>

record form_request =
  method_of :: string
  files :: "string \<rightharpoonup> upload"

datatype page =
    Redirect
  | Index_page
  | Results_page "(string \<times> string) list" "(string \<times> rat) list"

definition upload_file ::
    "config \<Rightarrow> server \<Rightarrow> form_request \<Rightarrow> world \<Rightarrow> (py_error + page) \<times> world" where
  "upload_file cfg srv req w =
     (if method_of req = ''POST'' then
        (case files req ''file'' of
           None \<Rightarrow> (Inr Redirect, flash ''No file part'' w)
         | Some file \<Rightarrow>
             if filename file = [] then (Inr Redirect, flash ''No selected file'' w)
             else if allowed_file (filename file) then
               (case process_file file of
                  Inl e \<Rightarrow> (Inl e, w)
                | Inr (reviews, error) \<Rightarrow>
                    if error \<noteq> None \<and> error \<noteq> Some [] then
                      (Inr Redirect, flash (the error) w)
                    else
                      (case reviews of
                         None \<Rightarrow> (Inl TypeError, w)
                       | Some reviews \<Rightarrow>
                           (let (t, w') = review_loop cfg srv reviews empty_tally w in
                            case summarize t (length reviews) of
                              Inl e \<Rightarrow> (Inl e, w')
                            | Inr sentiment_summary \<Rightarrow>
                                (Inr (Results_page (results t) sentiment_summary), w'))))
             else (Inr Redirect, flash ''Allowed file types are CSV, XLSX'' w))
      else (Inr Index_page, w))"

subsection \<open>Notions used to state the properties\<close>

text \<open>
  The specification's wording, for comparison with the code: \<open>p\<close> is a case-insensitive
  substring of \<open>t\<close> when some contiguous piece of \<open>t\<close> agrees with \<open>p\<close> up to the
  case of its letters.
\<close>

definition ci_substring :: "string \<Rightarrow> string \<Rightarrow> bool" where
  "ci_substring p t = (\<exists>u. sublist u t \<and> lower u = lower p)"

text \<open>The specification's wording again: the non-empty values of a column of a file.\<close>

definition non_empty_values :: "string list \<Rightarrow> string list" where
  "non_empty_values texts = filter (\<lambda>t. t \<noteq> []) texts"

text \<open>The \<^verbatim>\<open>Authorization\<close> header of a request.\<close>

definition authorization :: "request \<Rightarrow> string option" where
  "authorization r = map_of (headers r) ''Authorization''"

text \<open>
  The tally the handler holds after its loop (lines 122 to 148), and the labels of its
  result list.
\<close>

definition tallied :: "config \<Rightarrow> server \<Rightarrow> string list \<Rightarrow> world \<Rightarrow> tally" where
  "tallied cfg srv reviews w = fst (review_loop cfg srv reviews empty_tally w)"

definition labels :: "tally \<Rightarrow> string list" where
  "labels t = map snd (results t)"

text \<open>
  What the loop keeps true of its counters: each counts its own labels of the result
  list, the neutral counter those that are \<open>neutral\<close> or \<open>unknown\<close>, and no other
  label occurs.
\<close>

definition counted :: "tally \<Rightarrow> bool" where
  "counted t \<longleftrightarrow>
     positive_count t = count_list (labels t) ''positive'' \<and>
     negative_count t = count_list (labels t) ''negative'' \<and>
     neutral_count t = count_list (labels t) ''neutral'' + count_list (labels t) ''unknown'' \<and>
     set (labels t) \<subseteq> {''positive'', ''negative'', ''neutral'', ''unknown''}"

text \<open>
  When a float \<open>v\<close> is the exact number \<open>x\<close> rounded to two decimal places: \<open>v\<close> is
  the binary64 number nearest to a number of hundredths \<open>k / 100\<close>, and \<open>k / 100\<close> is
  within half a hundredth of \<open>x\<close>, up to the error \<open>1 / 2\<^sup>5\<^sup>3\<close> of the float division
  that produced the number that was rounded.
\<close>

definition rounded_to_hundredths :: "rat \<Rightarrow> rat \<Rightarrow> bool" where
  "rounded_to_hundredths v x =
     (\<exists>k::int. 0 \<le> k \<and> k \<le> 100 \<and> v = nearest_double (nat k) 100 \<and>
        \<bar>v - of_int k / 100\<bar> \<le> 1 / 2 ^ 53 \<and>
        \<bar>of_int k / 100 - x\<bar> \<le> 1 / 200 + 1 / 2 ^ 53)"

subsection \<open>Example inputs\<close>

text \<open>
  A configuration with a key, an environment in which no variable is set, a request that
  posts a file, and the state before the handler has done anything.
\<close>

definition demo_config :: config where
  "demo_config = \<lparr>API_KEY = Some ''gsk_demo''\<rparr>"

definition unset_environ :: "string \<rightharpoonup> string" where
  "unset_environ = Map.empty"

definition post_file :: "upload \<Rightarrow> form_request" where
  "post_file file = \<lparr>method_of = ''POST'', files = [''file'' \<mapsto> file]\<rparr>"

definition fresh :: world where
  "fresh = \<lparr>flashed = [], trace = []\<rparr>"

text \<open>
  Endpoints: one that answers the first request with 429 and every later one with 500,
  one that answers every request with 429, one that answers every request with a
  positive verdict, and one that answers the first request with a positive verdict, the
  second with a negative one and every later one with a neutral one.
\<close>

definition busy_then_down :: server where
  "busy_then_down n req =
     (if n = 0
      then Response \<lparr>status_code = 429, http_error_text = ''429 Client Error'', choices = None\<rparr>
      else Response \<lparr>status_code = 500, http_error_text = ''500 Server Error'', choices = None\<rparr>)"

definition always_busy :: server where
  "always_busy n req =
     Response \<lparr>status_code = 429, http_error_text = ''429 Client Error'', choices = None\<rparr>"

definition verdict :: "string \<Rightarrow> http_result" where
  "verdict text = Response \<lparr>status_code = 200, http_error_text = [], choices = Some [Some text]\<rparr>"

definition answers_positive :: server where
  "answers_positive n req = verdict ''The sentiment is Positive.''"

definition mixed_answers :: server where
  "mixed_answers n req =
     (if n = 0 then verdict ''Sentiment: Positive''
      else if n = 1 then verdict ''Sentiment: Negative''
      else verdict ''Sentiment: Neutral'')"

text \<open>
  Uploads: the sheet of the specification's first scenario, a sheet whose
  \<^verbatim>\<open>Review\<close> column has no value in any row, a sheet with an empty cell and the
  text \<open>null\<close> in the column, a sheet with the review \<open>N/A\<close>, a sheet without the
  column, and a well-formed CSV file whose name ends in capitals (which
  \<^verbatim>\<open>pd.read_excel\<close> cannot read).
\<close>

definition three_reviews :: upload where
  "three_reviews =
     \<lparr>filename = ''reviews.csv'',
      read_csv = Inr [(''Review'', [Some ''Great product!'', Some ''Terrible experience'',
                                     Some ''It was okay''])],
      read_excel = Inl (ParserError ''File is not a zip file'')\<rparr>"

definition empty_reviews :: upload where
  "empty_reviews =
     \<lparr>filename = ''reviews.csv'',
      read_csv = Inr [(''Id'', [Some ''1'', Some ''2'']), (''Review'', [None, None])],
      read_excel = Inl (ParserError ''File is not a zip file'')\<rparr>"

definition gappy_sheet :: sheet where
  "gappy_sheet = [(''Review'', [''Great product!'', '''', ''null'', ''It was okay''])]"

definition gappy_reviews :: upload where
  "gappy_reviews =
     \<lparr>filename = ''reviews.csv'',
      read_csv = Inr (read_text_sheet gappy_sheet),
      read_excel = Inl (ParserError ''File is not a zip file'')\<rparr>"

definition marked_sheet :: sheet where
  "marked_sheet = [(''Review'', [''Good'', ''N/A'', ''Bad''])]"

definition marked_reviews :: upload where
  "marked_reviews =
     \<lparr>filename = ''reviews.csv'',
      read_csv = Inr (read_text_sheet marked_sheet),
      read_excel = Inl (ParserError ''File is not a zip file'')\<rparr>"


definition capital_csv :: upload where
  "capital_csv =
     \<lparr>filename = ''REVIEWS.CSV'',
      read_csv = Inr [(''Review'', [Some ''Great product!''])],
      read_excel = Inl (ParserError ''Excel file format cannot be determined'')\<rparr>"

section \<open>Properties\<close>

lemma sublist_map_iff:
  "sublist p (map f t) \<longleftrightarrow> (\<exists>u. sublist u t \<and> map f u = p)"
proof
  assume "sublist p (map f t)"
  then obtain a b where "map f t = a @ p @ b"
    by (auto simp: sublist_def)
  then obtain a' r where t: "t = a' @ r" and r: "map f r = p @ b"
    by (metis map_eq_append_conv)
  from r obtain u b' where "r = u @ b'" and "map f u = p"
    by (metis map_eq_append_conv)
  with t have "sublist u t \<and> map f u = p"
    by auto
  then show "\<exists>u. sublist u t \<and> map f u = p" ..
next
  assume "\<exists>u. sublist u t \<and> map f u = p"
  then show "sublist p (map f t)"
    by (auto intro: map_mono_sublist)
qed

lemma lower_positive: "lower ''positive'' = ''positive''"
  by (simp add: lower_def lower_char_def)

lemma lower_negative: "lower ''negative'' = ''negative''"
  by (simp add: lower_def lower_char_def)

lemma sublist_lower_iff: "lower p = p \<Longrightarrow> sublist p (lower t) \<longleftrightarrow> ci_substring p t"
  unfolding ci_substring_def lower_def by (simp add: sublist_map_iff)

text \<open>
  C3. A failed classification is labelled \<open>unknown\<close>. A successful one is labelled
  \<open>positive\<close> exactly when "positive" is a case-insensitive substring of the answer,
  otherwise \<open>negative\<close> exactly when "negative" is one, otherwise \<open>neutral\<close>; an
  answer holding both words is \<open>positive\<close>.
\<close>

theorem label_of_normalizes:
  "fst (label_of (Error reason) fl) = ''unknown'' \<and>
   fst (label_of (Sentiment t) fl) =
     (if ci_substring ''positive'' t then ''positive''
      else if ci_substring ''negative'' t then ''negative''
      else ''neutral'')"
  by (simp add: label_of_def classify_sentiment_def
      sublist_lower_iff [OF lower_positive] sublist_lower_iff [OF lower_negative])

subsection \<open>The retry loop\<close>

lemma sent_append: "sent (xs @ ys) = sent xs @ sent ys"
  by (induction xs rule: sent.induct) simp_all

lemma attempts_rate_limited:
  "(\<And>j. j < k \<Longrightarrow> rate_limited (srv (length (sent tr) + j) req)) \<Longrightarrow>
   attempts srv req ([i..<i + k] @ rest) tr =
   attempts srv req rest (tr @ concat (map (\<lambda>attempt. [Post req, Sleep (2 ^ attempt)]) [i..<i + k]))"
proof (induction k arbitrary: i tr)
  case 0
  then show ?case by simp
next
  case (Suc k)
  have split: "[i..<i + Suc k] = i # [Suc i..<Suc i + k]"
    by (simp add: upt_rec)
  from Suc.prems [of 0] obtain r where r: "srv (length (sent tr)) req = Response r" "status_code r = 429"
    by (auto simp: rate_limited_def split: http_result.splits)
  let ?tr = "tr @ [Post req] @ [Sleep (2 ^ i)]"
  have "\<And>j. j < k \<Longrightarrow> rate_limited (srv (length (sent ?tr) + j) req)"
    using Suc.prems [of "Suc _"] by (simp add: sent_append)
  then have "attempts srv req ([Suc i..<Suc i + k] @ rest) ?tr =
      attempts srv req rest (?tr @ concat (map (\<lambda>attempt. [Post req, Sleep (2 ^ attempt)]) [Suc i..<Suc i + k]))"
    by (rule Suc.IH)
  with r show ?case
    unfolding split by (simp add: requests_post_def raises_for_status_def)
qed

lemma backoff_sent: "length (sent (tr @ backoff req k)) = length (sent tr) + k"
  by (induction k) (simp_all add: backoff_def sent_append)

lemma analyze_after_backoff:
  assumes "k < retry_attempts"
    and "\<And>j. j < k \<Longrightarrow> rate_limited (srv (length (sent tr) + j) (build_request cfg review))"
  shows "analyze_sentiment cfg srv review tr =
     attempts srv (build_request cfg review) [k..<retry_attempts]
       (tr @ backoff (build_request cfg review) k)"
proof -
  have "[0..<k + (retry_attempts - k)] = [0..<k] @ [k..<k + (retry_attempts - k)]"
    by (rule upt_add_eq_append) simp
  with assms(1) have "[0..<retry_attempts] = [0..<0 + k] @ [k..<retry_attempts]"
    by simp
  then show ?thesis
    using attempts_rate_limited [of k srv tr "build_request cfg review" 0 "[k..<retry_attempts]"]
      assms(2)
    by (simp add: analyze_sentiment_def backoff_def)
qed

lemma attempts_posts_le:
  "length (sent (snd (attempts srv req as tr))) \<le> length (sent tr) + length as"
proof (induction as arbitrary: tr)
  case Nil
  then show ?case by simp
next
  case (Cons a as)
  have "length (sent (snd (attempts srv req as (tr @ [Post req, Sleep (2 ^ a)])))) \<le>
      length (sent (tr @ [Post req, Sleep (2 ^ a)])) + length as"
    by (rule Cons.IH)
  then show ?case
    by (simp add: requests_post_def sent_append split: http_result.splits)
qed

text \<open>
  C2. \<^verbatim>\<open>analyze_sentiment\<close> sends at most three requests. While the replies are
  429 it sleeps \<open>2 ^ attempt\<close> seconds and tries again; the first reply that is not a
  429 ends the call at once, with no further sleep or request: an exception of the
  transport gives \<open>Request failed: ...\<close>, any other error status gives
  \<open>HTTP error: ...\<close>, and a status that does not raise gives what the body holds.
  Three 429 replies leave the trace post, sleep 1, post, sleep 2, post, sleep 4 and give
  \<open>Failed after multiple retries due to rate limiting.\<close>
\<close>

theorem analyze_sentiment_retry:
  "(\<forall>k<3. (\<forall>j<k. rate_limited (srv (length (sent tr) + j) (build_request cfg review))) \<longrightarrow>
      (case srv (length (sent tr) + k) (build_request cfg review) of
         RequestException e \<Rightarrow>
           analyze_sentiment cfg srv review tr =
             (Error (''Request failed: '' @ e),
              tr @ backoff (build_request cfg review) k @ [Post (build_request cfg review)])
       | Response r \<Rightarrow>
           status_code r \<noteq> 429 \<longrightarrow>
           analyze_sentiment cfg srv review tr =
             (if 400 \<le> status_code r \<and> status_code r < 600
              then Error (''HTTP error: '' @ http_error_text r)
              else extract_sentiment r,
              tr @ backoff (build_request cfg review) k @ [Post (build_request cfg review)])))
   \<and> ((\<forall>j<3. rate_limited (srv (length (sent tr) + j) (build_request cfg review))) \<longrightarrow>
        analyze_sentiment cfg srv review tr =
          (Error ''Failed after multiple retries due to rate limiting.'',
           tr @ backoff (build_request cfg review) 3))
   \<and> backoff (build_request cfg review) 3 =
        [Post (build_request cfg review), Sleep 1, Post (build_request cfg review), Sleep 2,
         Post (build_request cfg review), Sleep 4]
   \<and> length (sent (snd (analyze_sentiment cfg srv review tr))) \<le> length (sent tr) + 3"
proof -
  let ?req = "build_request cfg review"
  let ?reply = "\<lambda>j. srv (length (sent tr) + j) ?req"
  have first: "(case ?reply k of
         RequestException e \<Rightarrow>
           analyze_sentiment cfg srv review tr =
             (Error (''Request failed: '' @ e), tr @ backoff ?req k @ [Post ?req])
       | Response r \<Rightarrow>
           status_code r \<noteq> 429 \<longrightarrow>
           analyze_sentiment cfg srv review tr =
             (if 400 \<le> status_code r \<and> status_code r < 600
              then Error (''HTTP error: '' @ http_error_text r)
              else extract_sentiment r,
              tr @ backoff ?req k @ [Post ?req]))"
    if k: "k < 3" and lim: "\<forall>j<k. rate_limited (?reply j)" for k
  proof -
    from k have "k < retry_attempts"
      by (simp add: retry_attempts_def)
    then have "analyze_sentiment cfg srv review tr =
        attempts srv ?req [k..<retry_attempts] (tr @ backoff ?req k)"
      using lim by (intro analyze_after_backoff) auto
    moreover from k have "[k..<retry_attempts] = k # [Suc k..<retry_attempts]"
      by (simp add: retry_attempts_def upt_rec)
    ultimately show ?thesis
      by (simp add: requests_post_def backoff_sent raises_for_status_def
          split: http_result.splits)
  qed
  have last: "analyze_sentiment cfg srv review tr =
      (Error ''Failed after multiple retries due to rate limiting.'', tr @ backoff ?req 3)"
    if "\<forall>j<3. rate_limited (?reply j)"
    using that attempts_rate_limited [of 3 srv tr ?req 0 "[]"]
    by (simp add: analyze_sentiment_def retry_attempts_def backoff_def)
  have delays: "backoff ?req 3 = [Post ?req, Sleep 1, Post ?req, Sleep 2, Post ?req, Sleep 4]"
    by (simp add: backoff_def upt_rec)
  have bound: "length (sent (snd (analyze_sentiment cfg srv review tr))) \<le> length (sent tr) + 3"
    using attempts_posts_le [of srv ?req "[0..<retry_attempts]" tr]
    by (simp add: analyze_sentiment_def retry_attempts_def)
  from first last delays bound show ?thesis
    by blast
qed

theorem analyze_sentiment_retry_witness:
  "rate_limited (busy_then_down 0 (build_request demo_config ''Great product!'')) \<and>
   analyze_sentiment demo_config busy_then_down ''Great product!'' [] =
     (Error ''HTTP error: 500 Server Error'',
      [Post (build_request demo_config ''Great product!''), Sleep 1,
       Post (build_request demo_config ''Great product!'')]) \<and>
   rate_limited (always_busy 2 (build_request demo_config ''Great product!'')) \<and>
   analyze_sentiment demo_config always_busy ''Great product!'' [] =
     (Error ''Failed after multiple retries due to rate limiting.'',
      [Post (build_request demo_config ''Great product!''), Sleep 1,
       Post (build_request demo_config ''Great product!''), Sleep 2,
       Post (build_request demo_config ''Great product!''), Sleep 4])"
proof -
  let ?req = "build_request demo_config ''Great product!''"
  note down = analyze_sentiment_retry [of busy_then_down "[]" demo_config "''Great product!''"]
  note busy = analyze_sentiment_retry [of always_busy "[]" demo_config "''Great product!''"]
  have first: "analyze_sentiment demo_config busy_then_down ''Great product!'' [] =
      (Error ''HTTP error: 500 Server Error'', [Post ?req, Sleep 1, Post ?req])"
    using down [THEN conjunct1, rule_format, of 1]
    by (simp add: busy_then_down_def backoff_def rate_limited_def)
  have second: "analyze_sentiment demo_config always_busy ''Great product!'' [] =
      (Error ''Failed after multiple retries due to rate limiting.'',
       [Post ?req, Sleep 1, Post ?req, Sleep 2, Post ?req, Sleep 4])"
    using busy [THEN conjunct2, THEN conjunct1, rule_format]
      busy [THEN conjunct2, THEN conjunct2, THEN conjunct1]
    by (simp add: always_busy_def rate_limited_def)
  from first second show ?thesis
    by (simp add: busy_then_down_def always_busy_def rate_limited_def)
qed

subsection \<open>The bearer token\<close>

lemma attempts_sent:
  "\<exists>n. n \<le> length as \<and> (as = [] \<or> 1 \<le> n) \<and>
       sent (snd (attempts srv req as tr)) = sent tr @ replicate n req"
proof (induction as arbitrary: tr)
  case Nil
  then show ?case by simp
next
  case (Cons a as)
  obtain n where n: "n \<le> length as"
      "sent (snd (attempts srv req as (tr @ [Post req, Sleep (2 ^ a)]))) =
       sent (tr @ [Post req, Sleep (2 ^ a)]) @ replicate n req"
    using Cons.IH [of "tr @ [Post req, Sleep (2 ^ a)]"] by blast
  have one: "sent (tr @ [Post req]) = sent tr @ replicate 1 req"
    by (simp add: sent_append)
  show ?case
  proof (cases "rate_limited (srv (length (sent tr)) req)")
    case True
    then obtain r where "srv (length (sent tr)) req = Response r" "status_code r = 429"
      by (auto simp: rate_limited_def split: http_result.splits)
    with n have "sent (snd (attempts srv req (a # as) tr)) = sent tr @ replicate (Suc n) req"
      by (simp add: requests_post_def raises_for_status_def sent_append replicate_append_same)
    with n(1) show ?thesis
      by (intro exI [of _ "Suc n"]) simp
  next
    case False
    then have "snd (attempts srv req (a # as) tr) = tr @ [Post req]"
      by (auto simp: requests_post_def rate_limited_def split: http_result.splits)
    with one show ?thesis
      by (intro exI [of _ 1]) simp
  qed
qed

text \<open>
  C9, as the code has it. Loading the configuration cannot fail: the key is the value of
  \<^verbatim>\<open>GROQ_API_KEY\<close>, or \<^verbatim>\<open>None\<close> when the variable is not set. Every
  call of \<^verbatim>\<open>analyze_sentiment\<close> sends between one and three requests, all of
  them the same, with the header \<open>Bearer\<close> followed by the key, or by the word
  \<open>None\<close> when there is no key.
\<close>

theorem bearer_token_unchecked:
  "API_KEY (load_config environ) = environ ''GROQ_API_KEY'' \<and>
   (\<exists>n. 1 \<le> n \<and> n \<le> 3 \<and>
      sent (snd (analyze_sentiment (load_config environ) srv review tr)) =
        sent tr @ replicate n (build_request (load_config environ) review)) \<and>
   authorization (build_request (load_config environ) review) =
     Some (''Bearer '' @ (case environ ''GROQ_API_KEY'' of None \<Rightarrow> ''None'' | Some key \<Rightarrow> key))"
proof -
  obtain n where "n \<le> length [0..<retry_attempts]" "[0..<retry_attempts] = [] \<or> 1 \<le> n"
    "sent (snd (attempts srv (build_request (load_config environ) review) [0..<retry_attempts] tr)) =
       sent tr @ replicate n (build_request (load_config environ) review)"
    using attempts_sent by blast
  then have "1 \<le> n \<and> n \<le> 3 \<and>
      sent (snd (analyze_sentiment (load_config environ) srv review tr)) =
        sent tr @ replicate n (build_request (load_config environ) review)"
    by (simp add: analyze_sentiment_def retry_attempts_def)
  then show ?thesis
    by (auto simp: load_config_def authorization_def build_request_def format_opt_def)
qed

text \<open>
  C9 as stated fails. With no key in the environment the program still classifies: the request goes out with
  the header \<open>Bearer None\<close>, and the endpoint's answer is used.
\<close>

theorem bearer_token_absent_counterexample:
  "API_KEY (load_config unset_environ) = None \<and>
   analyze_sentiment (load_config unset_environ) answers_positive ''Great product!'' [] =
     (Sentiment ''The sentiment is Positive.'',
      [Post (build_request (load_config unset_environ) ''Great product!'')]) \<and>
   authorization (build_request (load_config unset_environ) ''Great product!'') =
     Some ''Bearer None''"
  by (simp add: load_config_def unset_environ_def analyze_sentiment_def retry_attempts_def
      upt_rec requests_post_def answers_positive_def verdict_def raises_for_status_def
      extract_sentiment_def authorization_def build_request_def format_opt_def)

subsection \<open>Rounding errors\<close>

lemma round_half_even_error:
  assumes "0 < d"
  shows "\<bar>of_int (round_half_even n d) - (of_int n / of_int d :: rat)\<bar> \<le> 1 / 2"
proof -
  define q r where "q = n div d" and "r = n mod d"
  have n: "n = q * d + r"
    by (simp add: q_def r_def)
  have r: "0 \<le> r" "r < d"
    using assms by (simp_all add: r_def)
  have d: "(0::rat) < of_int d"
    using assms by simp
  have quot: "(of_int n / of_int d :: rat) = of_int q + of_int r / of_int d"
    using d by (simp add: n field_simps)
  have lo: "\<bar>of_int q - (of_int n / of_int d :: rat)\<bar> \<le> 1 / 2" if "2 * r \<le> d"
  proof -
    have "(of_int (2 * r) :: rat) \<le> of_int d"
      using that by (simp only: of_int_le_iff)
    then have "(of_int r / of_int d :: rat) \<le> 1 / 2"
      using d by (simp add: field_simps)
    moreover have "(0::rat) \<le> of_int r / of_int d"
      using r d by simp
    ultimately show ?thesis
      by (simp add: quot)
  qed
  have hi: "\<bar>of_int (q + 1) - (of_int n / of_int d :: rat)\<bar> \<le> 1 / 2" if "d \<le> 2 * r"
  proof -
    have "(of_int d :: rat) \<le> of_int (2 * r)"
      using that by (simp only: of_int_le_iff)
    then have "1 / 2 \<le> (of_int r / of_int d :: rat)"
      using d by (simp add: field_simps)
    moreover have "(of_int r / of_int d :: rat) \<le> 1"
      using r d by (simp add: field_simps)
    ultimately show ?thesis
      by (simp add: quot)
  qed
  show ?thesis
    using lo hi by (simp add: round_half_even_def Let_def q_def [symmetric] r_def [symmetric])
qed

lemma round_half_even_nonneg: "0 \<le> n \<Longrightarrow> 0 < d \<Longrightarrow> 0 \<le> round_half_even n d"
  by (simp add: round_half_even_def Let_def pos_imp_zdiv_nonneg_iff)

lemma bit_length_0: "bit_length 0 = 0"
  by (simp add: bit_length.simps [of 0])

lemma bit_length_1: "bit_length (Suc 0) = 1"
  by (simp add: bit_length.simps [of "Suc 0"] bit_length_0)

lemma bit_length_bounds: "0 < n \<Longrightarrow> 2 ^ (bit_length n - 1) \<le> n \<and> n < 2 ^ bit_length n"
proof (induction n rule: bit_length.induct)
  case (1 n)
  show ?case
  proof (cases "n div 2 = 0")
    case True
    with "1.prems" have "n = 1"
      by (simp add: div_eq_0_iff)
    then show ?thesis
      by (simp add: bit_length_1)
  next
    case False
    with "1.IH" "1.prems" have ih: "2 ^ (bit_length (n div 2) - 1) \<le> n div 2"
        "n div 2 < 2 ^ bit_length (n div 2)"
      by simp_all
    have pos: "0 < bit_length (n div 2)"
      using False by (simp add: bit_length.simps [of "n div 2"])
    have bl: "bit_length n = Suc (bit_length (n div 2))"
      using "1.prems" by (simp add: bit_length.simps [of n])
    from pos obtain m where m: "bit_length (n div 2) = Suc m"
      by (cases "bit_length (n div 2)") auto
    from ih show ?thesis
      unfolding bl m by simp linarith
  qed
qed

lemma bit_length_mono:
  assumes "a \<le> b"
  shows "bit_length a \<le> bit_length b"
proof (cases "a = 0")
  case True
  then show ?thesis by (simp add: bit_length_0)
next
  case False
  with assms have "0 < a" "0 < b"
    by simp_all
  then have "(2::nat) ^ (bit_length a - 1) < 2 ^ bit_length b"
    using bit_length_bounds [of a] bit_length_bounds [of b] assms by linarith
  then have "bit_length a - 1 < bit_length b"
    by (simp add: power_strict_increasing_iff)
  then show ?thesis by simp
qed

lemma binade_le_0:
  assumes "0 < a" "a \<le> b"
  shows "binade a b \<le> 0"
proof -
  have "int (bit_length a) - int (bit_length b) \<le> 0"
    using bit_length_mono [OF assms(2)] by simp
  then show ?thesis
    by (simp add: binade_def Let_def)
qed


lemma nearest_double_error:
  assumes "0 < b" "a \<le> b"
  shows "\<bar>nearest_double a b - of_nat a / of_nat b\<bar> \<le> 1 / 2 ^ 53 \<and> 0 \<le> nearest_double a b"
proof (cases "a = 0")
  case True
  then show ?thesis by (simp add: nearest_double_def)
next
  case False
  define e where "e = min (52 - binade a b) 1074"
  define E where "E = nat e"
  define m where "m = round_half_even (int a * 2 ^ E) (int b)"
  from False assms have "binade a b \<le> 0"
    by (intro binade_le_0) simp_all
  then have e: "52 \<le> e"
    by (simp add: e_def)
  then have E: "52 \<le> E"
    by (simp add: E_def)
  have nd: "nearest_double a b = of_int m / 2 ^ E"
    using False e by (simp add: nearest_double_def Let_def e_def [symmetric] m_def E_def)
  have "\<bar>of_int m - (of_int (int a * 2 ^ E) / of_int (int b) :: rat)\<bar> \<le> 1 / 2"
    unfolding m_def using assms(1) by (intro round_half_even_error) simp
  then have X: "\<bar>of_int m - (of_nat a / of_nat b) * 2 ^ E\<bar> \<le> (1 / 2 :: rat)"
    by (simp add: field_simps)
  define X :: rat where "X = of_int m - (of_nat a / of_nat b) * 2 ^ E"
  from X have "\<bar>X\<bar> / 2 ^ E \<le> (1 / 2) / 2 ^ E"
    unfolding X_def by (intro divide_right_mono) simp_all
  moreover have "\<bar>X\<bar> / 2 ^ E = \<bar>X / 2 ^ E\<bar>"
    by simp
  moreover have "X / 2 ^ E = of_int m / 2 ^ E - of_nat a / of_nat b"
    by (simp add: X_def diff_divide_distrib)
  ultimately have err: "\<bar>of_int m / 2 ^ E - of_nat a / of_nat b\<bar> \<le> 1 / (2 * 2 ^ E :: rat)"
    by simp
  have "(2::rat) ^ 52 \<le> 2 ^ E"
    using E by (intro power_increasing) simp_all
  then have "(2::rat) ^ 53 \<le> 2 * 2 ^ E"
    by simp
  then have "1 / (2 * 2 ^ E :: rat) \<le> 1 / 2 ^ 53"
    by (intro divide_left_mono) simp_all
  with err have bound: "\<bar>of_int m / 2 ^ E - of_nat a / of_nat b\<bar> \<le> (1 / 2 ^ 53 :: rat)"
    by (rule order_trans)
  have "0 \<le> m"
    unfolding m_def using assms(1) by (intro round_half_even_nonneg) simp_all
  then have "(0::rat) \<le> of_int m / 2 ^ E"
    by simp
  with bound show ?thesis
    by (simp add: nd)
qed

lemma nearest_double_le:
  assumes "0 < b" "a \<le> b"
  shows "nearest_double a b \<le> 1 + 1 / 2 ^ 53"
proof -
  have "(of_nat a / of_nat b :: rat) \<le> 1"
    using assms by simp
  with nearest_double_error [OF assms] show ?thesis
    by linarith
qed

lemma py_truediv_fraction:
  assumes "0 < b" "a \<le> b"
  shows "py_truediv a b = Inr (nearest_double a b)"
proof -
  have "(1 + 1 / 2 ^ 53 :: rat) < 2 ^ 1024"
    by simp
  with nearest_double_le [OF assms] have "\<not> 2 ^ 1024 \<le> nearest_double a b"
    by linarith
  with assms(1) show ?thesis
    by (simp add: py_truediv_def Let_def)
qed

lemma py_round2_hundredths:
  assumes "0 \<le> q" "q \<le> 1 + 1 / 2 ^ 53"
  shows "\<exists>k::int. 0 \<le> k \<and> k \<le> 100 \<and> py_round2 q = nearest_double (nat k) 100 \<and>
           \<bar>py_round2 q - of_int k / 100\<bar> \<le> 1 / 2 ^ 53 \<and> \<bar>of_int k / 100 - q\<bar> \<le> 1 / 200"
proof -
  obtain n d where nd: "quotient_of (q * 100) = (n, d)"
    by (cases "quotient_of (q * 100)")
  define k where "k = round_half_even n d"
  have d: "0 < d"
    using nd by (rule quotient_of_denom_pos)
  have q: "q * 100 = of_int n / of_int d"
    using nd by (rule quotient_of_div)
  have "0 \<le> (of_int n / of_int d :: rat)"
    using assms(1) by (simp add: q [symmetric])
  with d have n: "0 \<le> n"
    by (simp add: zero_le_divide_iff)
  have k0: "0 \<le> k"
    unfolding k_def using n d by (rule round_half_even_nonneg)
  have err: "\<bar>of_int k - q * 100\<bar> \<le> 1 / 2"
    unfolding k_def q using d by (rule round_half_even_error)
  have "q * 100 \<le> 100 + 100 / 2 ^ 53"
    using assms(2) by simp
  moreover have "(100 / 2 ^ 53 :: rat) < 1 / 2"
    by simp
  moreover from err have "of_int k \<le> q * 100 + 1 / 2"
    by linarith
  ultimately have "(of_int k :: rat) < 101"
    by linarith
  then have "k < 101"
    by (simp only: of_int_less_iff [of k 101, where ?'a = rat, symmetric] of_int_numeral)
  then have k100: "k \<le> 100"
    by simp
  have rnd: "py_round2 q = nearest_double (nat k) 100"
    using k0 by (simp add: py_round2_def nd k_def)
  have "nat k \<le> 100"
    using k100 by simp
  with nearest_double_error [of 100 "nat k"] k0
  have near: "\<bar>py_round2 q - of_int k / 100\<bar> \<le> 1 / 2 ^ 53"
    by (simp add: rnd)
  from err have "\<bar>of_int k / 100 - q\<bar> \<le> 1 / 200"
    by linarith
  with k0 k100 rnd near show ?thesis
    by blast
qed

lemma proportion_rounded:
  assumes "0 < b" "a \<le> b"
  shows "rounded_to_hundredths (py_round2 (nearest_double a b)) (of_nat a / of_nat b)"
proof -
  let ?q = "nearest_double a b"
  from nearest_double_error [OF assms] nearest_double_le [OF assms]
  have q: "0 \<le> ?q" "?q \<le> 1 + 1 / 2 ^ 53" "\<bar>?q - of_nat a / of_nat b\<bar> \<le> 1 / 2 ^ 53"
    by simp_all
  from py_round2_hundredths [OF q(1,2)] obtain k :: int where k: "0 \<le> k" "k \<le> 100"
      "py_round2 ?q = nearest_double (nat k) 100"
      "\<bar>py_round2 ?q - of_int k / 100\<bar> \<le> 1 / 2 ^ 53" "\<bar>of_int k / 100 - ?q\<bar> \<le> 1 / 200"
    by blast
  from k(5) q(3) have "\<bar>of_int k / 100 - of_nat a / of_nat b\<bar> \<le> (1 / 200 + 1 / 2 ^ 53 :: rat)"
    by linarith
  with k show ?thesis
    unfolding rounded_to_hundredths_def by blast
qed

subsection \<open>The loop over the reviews\<close>

lemma label_of_cases:
  "fst (label_of r fl) \<in> {''positive'', ''negative'', ''neutral'', ''unknown''}"
  by (cases r) (simp_all add: label_of_def classify_sentiment_def Let_def)

lemma count_list_append: "count_list (xs @ ys) a = count_list xs a + count_list ys a"
  by (induction xs) simp_all

lemma counted_step:
  assumes "counted t" "l \<in> {''positive'', ''negative'', ''neutral'', ''unknown''}"
  shows "counted ((count_label l t)\<lparr>results := results (count_label l t) @ [(review, l)]\<rparr>)"
  using assms by (auto simp: counted_def labels_def count_label_def count_list_append)

lemma review_loop_invariant:
  "counted t \<Longrightarrow> counted (fst (review_loop cfg srv reviews t w))"
proof (induction reviews arbitrary: t w)
  case Nil
  then show ?case by simp
next
  case (Cons review rest)
  obtain sentiment_result tr where a: "analyze_sentiment cfg srv review (trace w) = (sentiment_result, tr)"
    by (cases "analyze_sentiment cfg srv review (trace w)")
  obtain sentiment fl where l: "label_of sentiment_result (flashed w) = (sentiment, fl)"
    by (cases "label_of sentiment_result (flashed w)")
  have "sentiment \<in> {''positive'', ''negative'', ''neutral'', ''unknown''}"
    using label_of_cases [of sentiment_result "flashed w"] by (simp add: l)
  with Cons.prems have "counted ((count_label sentiment t)
      \<lparr>results := results (count_label sentiment t) @ [(review, sentiment)]\<rparr>)"
    by (rule counted_step)
  then show ?case
    by (simp add: a l Let_def Cons.IH)
qed

lemma results_count_label: "results (count_label l t) = results t"
  by (simp add: count_label_def)

lemma review_loop_results:
  "map fst (results (fst (review_loop cfg srv reviews t w))) = map fst (results t) @ reviews"
proof (induction reviews arbitrary: t w)
  case Nil
  then show ?case by simp
next
  case (Cons review rest)
  show ?case
    by (simp add: Cons.IH results_count_label Let_def split: prod.splits)
qed

lemma counted_empty: "counted empty_tally"
  by (simp add: counted_def labels_def empty_tally_def)

lemma counted_total:
  assumes "counted t"
  shows "positive_count t + negative_count t + neutral_count t = length (results t)"
proof -
  have "set xs \<subseteq> {''positive'', ''negative'', ''neutral'', ''unknown''} \<Longrightarrow>
      count_list xs ''positive'' + count_list xs ''negative''
        + (count_list xs ''neutral'' + count_list xs ''unknown'') = length xs" for xs
    by (induction xs) auto
  from this [of "labels t"] assms show ?thesis
    by (simp add: counted_def labels_def)
qed


lemma tallied_counted: "counted (tallied cfg srv reviews w)"
  unfolding tallied_def by (intro review_loop_invariant counted_empty)

lemma tallied_entries: "map fst (results (tallied cfg srv reviews w)) = reviews"
  using review_loop_results [of cfg srv reviews empty_tally w]
  by (simp add: tallied_def empty_tally_def)

lemma tallied_length: "length (results (tallied cfg srv reviews w)) = length reviews"
proof -
  have "length (map fst (results (tallied cfg srv reviews w))) = length reviews"
    by (simp only: tallied_entries)
  then show ?thesis
    by simp
qed

lemma tallied_total:
  "positive_count (tallied cfg srv reviews w) + negative_count (tallied cfg srv reviews w)
     + neutral_count (tallied cfg srv reviews w) = length reviews"
  using counted_total [OF tallied_counted, of cfg srv reviews w] by (simp add: tallied_length)

text \<open>
  C10. After the loop the three counters add up to the number of reviews, and the result
  list holds one entry per review, in the order of the reviews.
\<close>

theorem review_loop_partition:
  "positive_count (tallied cfg srv reviews w) + negative_count (tallied cfg srv reviews w)
     + neutral_count (tallied cfg srv reviews w) = length reviews \<and>
   map fst (results (tallied cfg srv reviews w)) = reviews \<and>
   length (results (tallied cfg srv reviews w)) = length reviews"
  using tallied_total [of cfg srv reviews w] tallied_entries [of cfg srv reviews w]
    tallied_length [of cfg srv reviews w]
  by simp

subsection \<open>The summary\<close>

lemma summarize_fractions:
  assumes "0 < n" "positive_count t \<le> n" "negative_count t \<le> n" "neutral_count t \<le> n"
  shows "summarize t n =
     Inr [(''positive'', py_round2 (nearest_double (positive_count t) n)),
          (''negative'', py_round2 (nearest_double (negative_count t) n)),
          (''neutral'', py_round2 (nearest_double (neutral_count t) n))]"
  using assms by (simp add: summarize_def py_truediv_fraction)

lemma upload_file_results:
  assumes "method_of req = ''POST''" "files req ''file'' = Some file"
    "allowed_file (filename file)" "process_file file = Inr (Some reviews, None)"
  shows "fst (upload_file cfg srv req w) =
     (case summarize (tallied cfg srv reviews w) (length reviews) of
        Inl e \<Rightarrow> Inl e
      | Inr sentiment_summary \<Rightarrow>
          Inr (Results_page (results (tallied cfg srv reviews w)) sentiment_summary))"
proof -
  from assms(3) have "filename file \<noteq> []"
    by (auto simp: allowed_file_def)
  with assms show ?thesis
    by (simp add: upload_file_def tallied_def split: prod.splits sum.splits)
qed

text \<open>
  C5. When the handler reaches the result page for a non-empty list of reviews, the
  summary has the three keys \<open>positive\<close>, \<open>negative\<close> and \<open>neutral\<close> and no other.
  The first two hold the share of the results labelled so, the third the share of the
  results labelled \<open>neutral\<close> or \<open>unknown\<close>, each rounded to two decimal places.
\<close>

theorem summary_proportions:
  assumes "method_of req = ''POST''" and "files req ''file'' = Some file"
    and "allowed_file (filename file)" and "process_file file = Inr (Some reviews, None)"
    and "reviews \<noteq> []"
  shows "\<exists>P N U.
     fst (upload_file cfg srv req w) =
       Inr (Results_page (results (tallied cfg srv reviews w))
              [(''positive'', P), (''negative'', N), (''neutral'', U)]) \<and>
     rounded_to_hundredths P
       (of_nat (count_list (labels (tallied cfg srv reviews w)) ''positive'')
          / of_nat (length reviews)) \<and>
     rounded_to_hundredths N
       (of_nat (count_list (labels (tallied cfg srv reviews w)) ''negative'')
          / of_nat (length reviews)) \<and>
     rounded_to_hundredths U
       (of_nat (count_list (labels (tallied cfg srv reviews w)) ''neutral''
                  + count_list (labels (tallied cfg srv reviews w)) ''unknown'')
          / of_nat (length reviews))"
proof -
  let ?t = "tallied cfg srv reviews w"
  let ?n = "length reviews"
  have c: "counted ?t"
    by (rule tallied_counted)
  have total: "positive_count ?t + negative_count ?t + neutral_count ?t = ?n"
    by (rule tallied_total)
  from assms(5) have n: "0 < ?n"
    by simp
  from total have le: "positive_count ?t \<le> ?n" "negative_count ?t \<le> ?n" "neutral_count ?t \<le> ?n"
    by simp_all
  have page: "fst (upload_file cfg srv req w) =
      Inr (Results_page (results ?t)
        [(''positive'', py_round2 (nearest_double (positive_count ?t) ?n)),
         (''negative'', py_round2 (nearest_double (negative_count ?t) ?n)),
         (''neutral'', py_round2 (nearest_double (neutral_count ?t) ?n))])"
    by (simp add: upload_file_results [OF assms(1-4)] summarize_fractions [OF n le])
  have "rounded_to_hundredths (py_round2 (nearest_double (positive_count ?t) ?n))
      (of_nat (count_list (labels ?t) ''positive'') / of_nat ?n)"
    using proportion_rounded [OF n le(1)] c by (simp add: counted_def)
  moreover have "rounded_to_hundredths (py_round2 (nearest_double (negative_count ?t) ?n))
      (of_nat (count_list (labels ?t) ''negative'') / of_nat ?n)"
    using proportion_rounded [OF n le(2)] c by (simp add: counted_def)
  moreover have "rounded_to_hundredths (py_round2 (nearest_double (neutral_count ?t) ?n))
      (of_nat (count_list (labels ?t) ''neutral'' + count_list (labels ?t) ''unknown'')
         / of_nat ?n)"
    using proportion_rounded [OF n le(3)] c by (simp add: counted_def)
  ultimately show ?thesis
    using page by blast
qed

lemma three_reviews_file:
  "allowed_file (filename three_reviews) \<and>
   process_file three_reviews =
     Inr (Some [''Great product!'', ''Terrible experience'', ''It was okay''], None)"
  by code_simp

lemma three_reviews_tally:
  "tallied demo_config mixed_answers
     [''Great product!'', ''Terrible experience'', ''It was okay''] fresh =
   \<lparr>positive_count = 1, negative_count = 1, neutral_count = 1,
    results = [(''Great product!'', ''positive''), (''Terrible experience'', ''negative''),
               (''It was okay'', ''neutral'')]\<rparr>"
  by code_simp

lemma one_third_rounded:
  "py_round2 (nearest_double (Suc 0) (Suc (Suc (Suc 0)))) = nearest_double 33 100"
  by code_simp

lemma three_reviews_page:
  "fst (upload_file demo_config mixed_answers (post_file three_reviews) fresh) =
     Inr (Results_page
            [(''Great product!'', ''positive''), (''Terrible experience'', ''negative''),
             (''It was okay'', ''neutral'')]
            [(''positive'', nearest_double 33 100), (''negative'', nearest_double 33 100),
             (''neutral'', nearest_double 33 100)])"
proof -
  have "fst (upload_file demo_config mixed_answers (post_file three_reviews) fresh) =
     (case summarize (tallied demo_config mixed_answers
         [''Great product!'', ''Terrible experience'', ''It was okay''] fresh)
        (length [''Great product!'', ''Terrible experience'', ''It was okay'']) of
        Inl e \<Rightarrow> Inl e
      | Inr sentiment_summary \<Rightarrow>
          Inr (Results_page (results (tallied demo_config mixed_answers
            [''Great product!'', ''Terrible experience'', ''It was okay''] fresh))
            sentiment_summary))"
  proof (rule upload_file_results)
    show "method_of (post_file three_reviews) = ''POST''"
      by (simp add: post_file_def)
    show "files (post_file three_reviews) ''file'' = Some three_reviews"
      by (simp add: post_file_def)
    show "allowed_file (filename three_reviews)"
      by (rule three_reviews_file [THEN conjunct1])
    show "process_file three_reviews =
        Inr (Some [''Great product!'', ''Terrible experience'', ''It was okay''], None)"
      by (rule three_reviews_file [THEN conjunct2])
  qed
  then show ?thesis
    by (simp add: three_reviews_tally summarize_fractions one_third_rounded)
qed

theorem summary_proportions_witness:
  "method_of (post_file three_reviews) = ''POST'' \<and>
   files (post_file three_reviews) ''file'' = Some three_reviews \<and>
   allowed_file (filename three_reviews) \<and>
   process_file three_reviews =
     Inr (Some [''Great product!'', ''Terrible experience'', ''It was okay''], None) \<and>
   [''Great product!'', ''Terrible experience'', ''It was okay''] \<noteq> [] \<and>
   fst (upload_file demo_config mixed_answers (post_file three_reviews) fresh) =
     Inr (Results_page
            [(''Great product!'', ''positive''), (''Terrible experience'', ''negative''),
             (''It was okay'', ''neutral'')]
            [(''positive'', nearest_double 33 100), (''negative'', nearest_double 33 100),
             (''neutral'', nearest_double 33 100)]) \<and>
   rounded_to_hundredths (nearest_double 33 100) (1 / 3)"
proof -
  have hyps: "method_of (post_file three_reviews) = ''POST''"
      "files (post_file three_reviews) ''file'' = Some three_reviews"
      "allowed_file (filename three_reviews)"
      "process_file three_reviews =
         Inr (Some [''Great product!'', ''Terrible experience'', ''It was okay''], None)"
      "[''Great product!'', ''Terrible experience'', ''It was okay''] \<noteq> []"
    using three_reviews_file [THEN conjunct1] three_reviews_file [THEN conjunct2]
    by (simp_all add: post_file_def)
  from summary_proportions [OF hyps, of demo_config mixed_answers fresh]
  have "rounded_to_hundredths (nearest_double 33 100) (1 / 3)"
    by (simp add: three_reviews_page three_reviews_tally labels_def)
  with hyps three_reviews_page show ?thesis
    by simp
qed

text \<open>
  C6. For a non-empty list of reviews the three proportions of the summary add up to one
  within three hundredths.
\<close>

theorem summary_sums_to_one:
  assumes "reviews \<noteq> []"
  shows "\<exists>P N U.
     summarize (tallied cfg srv reviews w) (length reviews) =
       Inr [(''positive'', P), (''negative'', N), (''neutral'', U)] \<and>
     \<bar>P + N + U - 1\<bar> \<le> 3 / 100"
proof -
  let ?t = "tallied cfg srv reviews w"
  let ?n = "length reviews"
  from assms have n: "0 < ?n"
    by simp
  have total: "positive_count ?t + negative_count ?t + neutral_count ?t = ?n"
    by (rule tallied_total)
  then have le: "positive_count ?t \<le> ?n" "negative_count ?t \<le> ?n" "neutral_count ?t \<le> ?n"
    by simp_all
  define x y z :: rat where "x = of_nat (positive_count ?t) / of_nat ?n"
    and "y = of_nat (negative_count ?t) / of_nat ?n"
    and "z = of_nat (neutral_count ?t) / of_nat ?n"
  define P N U where "P = py_round2 (nearest_double (positive_count ?t) ?n)"
    and "N = py_round2 (nearest_double (negative_count ?t) ?n)"
    and "U = py_round2 (nearest_double (neutral_count ?t) ?n)"
  have "x + y + z = of_nat (positive_count ?t + negative_count ?t + neutral_count ?t) / of_nat ?n"
    by (simp add: x_def y_def z_def add_divide_distrib)
  with n have one: "x + y + z = 1"
    by (simp add: total)
  have near: "rounded_to_hundredths v u \<Longrightarrow> \<bar>v - u\<bar> \<le> 1 / 200 + 2 / 2 ^ 53" for v u
    unfolding rounded_to_hundredths_def by (elim exE conjE) linarith
  have "\<bar>P - x\<bar> \<le> 1 / 200 + 2 / 2 ^ 53"
    unfolding P_def x_def using n le(1) by (intro near proportion_rounded)
  moreover have "\<bar>N - y\<bar> \<le> 1 / 200 + 2 / 2 ^ 53"
    unfolding N_def y_def using n le(2) by (intro near proportion_rounded)
  moreover have "\<bar>U - z\<bar> \<le> 1 / 200 + 2 / 2 ^ 53"
    unfolding U_def z_def using n le(3) by (intro near proportion_rounded)
  moreover have "(6 / 2 ^ 53 :: rat) \<le> 3 / 200"
    by simp
  ultimately have "\<bar>P + N + U - 1\<bar> \<le> 3 / 100"
    using one by linarith
  moreover have "summarize ?t ?n = Inr [(''positive'', P), (''negative'', N), (''neutral'', U)]"
    unfolding P_def N_def U_def using n le by (rule summarize_fractions)
  ultimately show ?thesis
    by blast
qed

theorem summary_sums_to_one_witness:
  "[''Great product!'', ''Terrible experience'', ''It was okay''] \<noteq> [] \<and>
   summarize (tallied demo_config mixed_answers
       [''Great product!'', ''Terrible experience'', ''It was okay''] fresh) 3 =
     Inr [(''positive'', nearest_double 33 100), (''negative'', nearest_double 33 100),
          (''neutral'', nearest_double 33 100)] \<and>
   \<bar>nearest_double 33 100 + nearest_double 33 100 + nearest_double 33 100 - 1\<bar> \<le> 3 / 100"
proof -
  have ne: "[''Great product!'', ''Terrible experience'', ''It was okay''] \<noteq> []"
    by simp
  have s: "summarize (tallied demo_config mixed_answers
       [''Great product!'', ''Terrible experience'', ''It was okay''] fresh) 3 =
     Inr [(''positive'', nearest_double 33 100), (''negative'', nearest_double 33 100),
          (''neutral'', nearest_double 33 100)]"
    by (simp add: three_reviews_tally summarize_fractions numeral_3_eq_3 one_third_rounded)
  from summary_sums_to_one [OF ne, of demo_config mixed_answers fresh]
  have "\<bar>nearest_double 33 100 + nearest_double 33 100 + nearest_double 33 100 - 1\<bar> \<le> 3 / 100"
    by (simp add: s [unfolded numeral_3_eq_3] numeral_3_eq_3)
  with ne s show ?thesis
    by simp
qed

subsection \<open>Reading the column\<close>

lemma dropna_Some: "map Some (dropna cs) = filter (\<lambda>c. c \<noteq> None) cs"
  by (induction cs) (auto simp: dropna_def)

lemma dropna_Nil: "(dropna cs = []) = (set cs \<subseteq> {None})"
  by (induction cs) (auto simp: dropna_def)

lemma dropna_read_text:
  "dropna (map read_text_cell texts) = filter (\<lambda>t. t \<notin> STR_NA_VALUES) texts"
  by (induction texts) (auto simp: dropna_def read_text_cell_def)

text \<open>
  C8, as the code has it. When the reader that \<^verbatim>\<open>process_file\<close> calls returns a
  frame with a \<^verbatim>\<open>Review\<close> column, the reviews are the cells of that column that
  pandas does not hold as missing, in row order, and there is no error; the list is empty
  exactly when every cell is missing. Where pandas kept the column as text, these are the
  texts of the file that are not one of its markers for a missing value: an empty cell is
  dropped, and so is a cell that reads \<open>N/A\<close>, \<open>NA\<close>, \<open>null\<close>, \<open>None\<close> or
  \<open>nan\<close>.
\<close>

theorem process_file_reviews:
  assumes "read_frame file = Inr df" and "map_of df ''Review'' = Some cells"
  shows "\<exists>reviews.
     process_file file = Inr (Some reviews, None) \<and>
     map Some reviews = filter (\<lambda>c. c \<noteq> None) cells \<and>
     (reviews = []) = (set cells \<subseteq> {None}) \<and>
     (\<forall>texts. cells = map read_text_cell texts \<longrightarrow>
        reviews = filter (\<lambda>t. t \<notin> STR_NA_VALUES) texts)"
  using assms by (simp add: process_file_def dropna_Some dropna_Nil dropna_read_text)

theorem process_file_reviews_witness:
  "read_frame gappy_reviews = Inr (read_text_sheet gappy_sheet) \<and>
   map_of (read_text_sheet gappy_sheet) ''Review'' =
     Some (map read_text_cell [''Great product!'', '''', ''null'', ''It was okay'']) \<and>
   process_file gappy_reviews = Inr (Some [''Great product!'', ''It was okay''], None)"
proof -
  have frame: "read_frame gappy_reviews = Inr (read_text_sheet gappy_sheet)"
    by (simp add: read_frame_def reader_of_def endswith_def gappy_reviews_def suffix_to_prefix)
  have column: "map_of (read_text_sheet gappy_sheet) ''Review'' =
      Some (map read_text_cell [''Great product!'', '''', ''null'', ''It was okay''])"
    by (simp add: read_text_sheet_def gappy_sheet_def)
  have kept: "filter (\<lambda>t. t \<notin> STR_NA_VALUES) [''Great product!'', '''', ''null'', ''It was okay''] =
      [''Great product!'', ''It was okay'']"
    by (simp add: STR_NA_VALUES_def)
  from process_file_reviews [OF frame column]
  obtain reviews where r: "process_file gappy_reviews = Inr (Some reviews, None)"
    and t: "\<forall>texts.
        map read_text_cell [''Great product!'', '''', ''null'', ''It was okay''] =
          map read_text_cell texts \<longrightarrow>
        reviews = filter (\<lambda>t. t \<notin> STR_NA_VALUES) texts"
    by blast
  from t have "reviews =
      filter (\<lambda>t. t \<notin> STR_NA_VALUES) [''Great product!'', '''', ''null'', ''It was okay'']"
    by blast
  with r kept
  have "process_file gappy_reviews = Inr (Some [''Great product!'', ''It was okay''], None)"
    by simp
  with frame column show ?thesis
    by simp
qed

text \<open>
  C8 as stated fails. The column of the sheet holds the three non-empty values
  \<open>Good\<close>, \<open>N/A\<close> and \<open>Bad\<close>; the reviews are \<open>Good\<close> and \<open>Bad\<close>.
\<close>

theorem process_file_drops_marker_counterexample:
  "map_of marked_sheet ''Review'' = Some [''Good'', ''N/A'', ''Bad''] \<and>
   non_empty_values [''Good'', ''N/A'', ''Bad''] = [''Good'', ''N/A'', ''Bad''] \<and>
   read_frame marked_reviews = Inr (read_text_sheet marked_sheet) \<and>
   process_file marked_reviews = Inr (Some [''Good'', ''Bad''], None) \<and>
   process_file marked_reviews \<noteq> Inr (Some (non_empty_values [''Good'', ''N/A'', ''Bad'']), None)"
  by code_simp



subsection \<open>Where the handler fails\<close>

text \<open>
  C1. A sheet whose \<^verbatim>\<open>Review\<close> column holds no value is read without error as
  the empty list of reviews; the loop does nothing, and the first division of the summary
  raises \<^verbatim>\<open>ZeroDivisionError\<close>, which the handler does not catch.
\<close>

theorem empty_reviews_division_by_zero:
  "allowed_file (filename empty_reviews) \<and>
   process_file empty_reviews = Inr (Some [], None) \<and>
   upload_file demo_config mixed_answers (post_file empty_reviews) fresh =
     (Inl ZeroDivisionError, fresh)"
  by code_simp

text \<open>
  C4. A file named \<^verbatim>\<open>REVIEWS.CSV\<close> is accepted, since \<^verbatim>\<open>allowed_file\<close>
  compares the extension in lower case, but \<^verbatim>\<open>process_file\<close> tests the name as
  it is for the ending \<^verbatim>\<open>.csv\<close> and so hands the file to the Excel reader, whose
  exception ends the handler.
\<close>

theorem capital_csv_read_as_excel:
  "allowed_file (filename capital_csv) \<and>
   reader_of (filename capital_csv) = Excel_reader \<and>
   upload_file demo_config mixed_answers (post_file capital_csv) fresh =
     (Inl (ParserError ''Excel file format cannot be determined''), fresh)"
  by code_simp

subsection \<open>Further properties\<close>

text \<open>
  A name is accepted exactly when it has a dot and the text after its last dot is
  \<open>csv\<close> or \<open>xlsx\<close> in any mix of cases.
\<close>

theorem allowed_file_extension:
  "allowed_file name \<longleftrightarrow>
     (\<exists>stem ext. name = stem @ ''.'' @ ext \<and> CHR ''.'' \<notin> set ext \<and>
        (lower ext = ''csv'' \<or> lower ext = ''xlsx''))"
proof
  assume a: "allowed_file name"
  define ext where "ext = rev (takeWhile (\<lambda>c. c \<noteq> CHR ''.'') (rev name))"
  define stem where "stem = rev (tl (dropWhile (\<lambda>c. c \<noteq> CHR ''.'') (rev name)))"
  from a have dot: "CHR ''.'' \<in> set name"
    by (simp add: allowed_file_def)
  then have "dropWhile (\<lambda>c. c \<noteq> CHR ''.'') (rev name) \<noteq> []"
    by (simp add: dropWhile_eq_Nil_conv)
  moreover have "hd (dropWhile (\<lambda>c. c \<noteq> CHR ''.'') (rev name)) = CHR ''.''"
    using hd_dropWhile [OF calculation] by simp
  ultimately have "dropWhile (\<lambda>c. c \<noteq> CHR ''.'') (rev name) = CHR ''.'' # rev stem"
    by (cases "dropWhile (\<lambda>c. c \<noteq> CHR ''.'') (rev name)") (simp_all add: stem_def)
  then have "rev name = rev ext @ CHR ''.'' # rev stem"
    using takeWhile_dropWhile_id [of "\<lambda>c. c \<noteq> CHR ''.''" "rev name"] by (simp add: ext_def)
  then have "rev (rev name) = rev (rev ext @ CHR ''.'' # rev stem)"
    by simp
  then have name: "name = stem @ ''.'' @ ext"
    by simp
  have nodot: "CHR ''.'' \<notin> set ext"
    unfolding ext_def using set_takeWhileD [of "CHR ''.''" "\<lambda>c. c \<noteq> CHR ''.''" "rev name"] by auto
  from a dot have "lower ext = ''csv'' \<or> lower ext = ''xlsx''"
    by (simp add: allowed_file_def rsplit1_def ext_def Let_def ALLOWED_EXTENSIONS_def)
  with name nodot show "\<exists>stem ext. name = stem @ ''.'' @ ext \<and> CHR ''.'' \<notin> set ext \<and>
        (lower ext = ''csv'' \<or> lower ext = ''xlsx'')"
    by blast
next
  assume "\<exists>stem ext. name = stem @ ''.'' @ ext \<and> CHR ''.'' \<notin> set ext \<and>
        (lower ext = ''csv'' \<or> lower ext = ''xlsx'')"
  then obtain stem ext where name: "name = stem @ ''.'' @ ext" and nodot: "CHR ''.'' \<notin> set ext"
    and ext: "lower ext = ''csv'' \<or> lower ext = ''xlsx''"
    by blast
  from nodot have "takeWhile (\<lambda>c. c \<noteq> CHR ''.'') (rev ext @ CHR ''.'' # rev stem) = rev ext"
    by (subst takeWhile_append2) auto
  then have "rsplit1 CHR ''.'' name ! 1 = ext"
    by (simp add: name rsplit1_def)
  with ext show "allowed_file name"
    by (auto simp: allowed_file_def ALLOWED_EXTENSIONS_def name)
qed


lemma hundredth_gap:
  fixes k :: int and c n :: nat
  assumes "0 < n" and "(1 / 200 :: rat) < \<bar>of_int k / 100 - of_nat c / of_nat n\<bar>"
  shows "(1 / 200 + 1 / (200 * of_nat n) :: rat) \<le> \<bar>of_int k / 100 - of_nat c / of_nat n\<bar>"
proof -
  define D where "D = \<bar>k * int n - 100 * int c\<bar>"
  have n: "(0::rat) < of_nat n"
    using assms(1) by simp
  have "of_int k / 100 - of_nat c / of_nat n = (of_int (k * int n - 100 * int c) :: rat) / (100 * of_nat n)"
    using n by (simp add: field_simps)
  then have eq: "\<bar>of_int k / 100 - of_nat c / of_nat n\<bar> = (of_int D :: rat) / (100 * of_nat n)"
    using n by (simp add: D_def abs_divide del: of_int_diff of_int_mult)
  from assms(2) have "(1 / 200 :: rat) < of_int D / (100 * of_nat n)"
    by (simp only: eq)
  then have "(of_nat n :: rat) < 2 * of_int D"
    using n by (simp add: field_simps)
  then have "(of_int (int n) :: rat) < of_int (2 * D)"
    by simp
  then have "int n < 2 * D"
    by (simp only: of_int_less_iff)
  then have "int n + 1 \<le> 2 * D"
    by simp
  then have "(of_int (int n + 1) :: rat) \<le> of_int (2 * D)"
    by (simp only: of_int_le_iff)
  then have "(of_nat n + 1 :: rat) \<le> 2 * of_int D"
    by simp
  then have "(of_nat n + 1 :: rat) / (200 * of_nat n) \<le> (2 * of_int D) / (200 * of_nat n)"
    by (intro divide_right_mono) simp_all
  moreover have "(of_nat n + 1 :: rat) / (200 * of_nat n) = 1 / 200 + 1 / (200 * of_nat n)"
    using n by (simp add: add_divide_distrib)
  moreover have "(2 * of_int D :: rat) / (200 * of_nat n) = of_int D / (100 * of_nat n)"
    by simp
  ultimately have "(1 / 200 + 1 / (200 * of_nat n) :: rat) \<le> of_int D / (100 * of_nat n)"
    by simp
  then show ?thesis
    by (simp only: eq)
qed

text \<open>
  With fewer than \<open>2\<^sup>4\<^sup>5\<close> reviews the float division cannot move a share across the
  midpoint between two hundredths: the number of hundredths that \<^verbatim>\<open>round\<close> picks
  is one nearest to the exact share.
\<close>

theorem proportion_nearest_hundredth:
  assumes "0 < n" and "c \<le> n" and "n < 2 ^ 45"
  shows "\<exists>k::int. 0 \<le> k \<and> k \<le> 100 \<and>
     py_truediv c n = Inr (nearest_double c n) \<and>
     py_round2 (nearest_double c n) = nearest_double (nat k) 100 \<and>
     \<bar>of_int k / 100 - of_nat c / of_nat n\<bar> \<le> (1 / 200 :: rat)"
proof -
  let ?q = "nearest_double c n"
  let ?x = "of_nat c / of_nat n :: rat"
  from nearest_double_error [OF assms(1,2)] nearest_double_le [OF assms(1,2)]
  have q: "0 \<le> ?q" "?q \<le> 1 + 1 / 2 ^ 53" "\<bar>?q - ?x\<bar> \<le> 1 / 2 ^ 53"
    by simp_all
  from py_round2_hundredths [OF q(1,2)] obtain k :: int where k: "0 \<le> k" "k \<le> 100"
      "py_round2 ?q = nearest_double (nat k) 100" "\<bar>of_int k / 100 - ?q\<bar> \<le> 1 / 200"
    by blast
  from k(4) q(3) have upper: "\<bar>of_int k / 100 - ?x\<bar> \<le> 1 / 200 + 1 / 2 ^ 53"
    by linarith
  have "\<bar>of_int k / 100 - ?x\<bar> \<le> 1 / 200"
  proof (rule ccontr)
    assume "\<not> \<bar>of_int k / 100 - ?x\<bar> \<le> 1 / 200"
    then have "1 / 200 < \<bar>of_int k / 100 - ?x\<bar>"
      by simp
    with assms(1) have "1 / 200 + 1 / (200 * of_nat n) \<le> \<bar>of_int k / 100 - ?x\<bar>"
      by (rule hundredth_gap)
    with upper have "1 / (200 * of_nat n) \<le> (1 / 2 ^ 53 :: rat)"
      by linarith
    moreover have "(0::rat) < of_nat n"
      using assms(1) by simp
    ultimately have "(2 ^ 53 :: rat) \<le> 200 * of_nat n"
      by (simp add: field_simps)
    moreover from assms(3) have "(of_nat n :: rat) < of_nat (2 ^ 45)"
      by (simp only: of_nat_less_iff)
    then have "200 * (of_nat n :: rat) < 200 * 2 ^ 45"
      by simp
    moreover have "(200 * 2 ^ 45 :: rat) < 2 ^ 53"
      by simp
    ultimately show False
      by linarith
  qed
  with k(1-3) py_truediv_fraction [OF assms(1,2)] show ?thesis
    by blast
qed

theorem proportion_nearest_hundredth_witness:
  "(0::nat) < 3 \<and> (1::nat) \<le> 3 \<and> (3::nat) < 2 ^ 45 \<and>
   (\<exists>k::int. 0 \<le> k \<and> k \<le> 100 \<and>
      py_truediv 1 3 = Inr (nearest_double 1 3) \<and>
      py_round2 (nearest_double 1 3) = nearest_double (nat k) 100 \<and>
      \<bar>of_int k / 100 - 1 / 3\<bar> \<le> (1 / 200 :: rat))"
  using proportion_nearest_hundredth [of 3 1] by simp

end
